theory Spec2Isabelle
  imports Complex_Main "HOL-Library.Product_Lexorder"
begin

section \<open>Numbers, dates and errors\<close>

text \<open>
  A JavaScript number is a real number: counters, intervals and timestamps are integers (a
  \<^verbatim>\<open>Date\<close> is its \<^verbatim>\<open>getTime()\<close> value, the milliseconds since the epoch), qualities and
  ease factors are reals. \<^verbatim>\<open>Math.round x\<close> is \<open>\<lfloor>x + 1/2\<rfloor>\<close>, which is \<^const>\<open>round\<close>.
  The scheduler \<^verbatim>\<open>calculateNextReview\<close> is taken over exact reals. The binary update
  stores day counts that turn on how a sum and a product of doubles round, so there the
  arithmetic of doubles is written out.
\<close>

type_synonym date = int

definition msPerDay :: int where
  "msPerDay = 1000 * 60 * 60 * 24"

definition msPerHour :: int where
  "msPerHour = 60 * 60 * 1000"

datatype error = StoreError string | TypeError string

subsection \<open>Double arithmetic\<close>

text \<open>
  An arithmetic operation on doubles returns the exact result rounded to the nearest
  double, a tie going to the double with the even significand (IEEE 754, the only rounding
  of JavaScript). A double other than 0 is an integer multiple of its unit in the last
  place, \<open>2 ^ (e - 52)\<close>, where \<open>2 ^ e\<close> is the power of two at or below its magnitude and
  \<open>e\<close> is at least \<open>-1022\<close> (below that the doubles are the subnormal ones, evenly spaced).
  A result of magnitude \<open>2 ^ 1024\<close> or more is \<^verbatim>\<open>Infinity\<close> in JavaScript; that is not
  modelled. Integers of magnitude up to \<open>2 ^ 53\<close> are doubles, and their sums and products
  within that range are exact.
\<close>

definition binade :: "real \<Rightarrow> int" where
  "binade x = \<lfloor>log 2 \<bar>x\<bar>\<rfloor>"

definition ulp :: "real \<Rightarrow> real" where
  "ulp x = 2 powr (of_int (max (binade x) (- 1022)) - 52)"

definition tiesToEven :: "real \<Rightarrow> int" where
  "tiesToEven r =
     (let f = \<lfloor>r\<rfloor> in
      if r - of_int f < 1 / 2 then f
      else if 1 / 2 < r - of_int f then f + 1
      else if even f then f else f + 1)"

definition toDouble :: "real \<Rightarrow> real" where
  "toDouble x = (if x = 0 then 0 else of_int (tiesToEven (x / ulp x)) * ulp x)"

text \<open>
  The literals \<^verbatim>\<open>0.1\<close>, \<^verbatim>\<open>0.2\<close> and \<^verbatim>\<open>1.3\<close> of the binary update denote the doubles
  nearest to them: \<open>3602879701896397 / 2 ^ 55\<close>, \<open>3602879701896397 / 2 ^ 54\<close> and
  \<open>5854679515581645 / 2 ^ 52\<close>. The literals \<^verbatim>\<open>2.5\<close> and \<^verbatim>\<open>3.0\<close> are doubles themselves.
\<close>

definition double01 :: real where
  "double01 = 3602879701896397 / 36028797018963968"

definition double02 :: real where
  "double02 = 3602879701896397 / 18014398509481984"

definition double13 :: real where
  "double13 = 5854679515581645 / 4503599627370496"

section \<open>The scheduler (spacedRepetition)\<close>

datatype difficulty = beginner | intermediate | advanced

text \<open>The interface \<^verbatim>\<open>ReviewItem\<close>; a field written with \<^verbatim>\<open>?\<close> is an option.\<close>

record ReviewItem =
  ri_id :: nat
  ri_word :: string
  ri_transliteration :: string
  ri_translation :: string
  ri_difficulty :: difficulty
  ri_lastReviewed :: "date option"
  ri_nextReview :: "date option"
  ri_easeFactor :: "real option"
  ri_correctCount :: "int option"
  ri_incorrectCount :: "int option"

record Schedule =
  sc_nextReview :: date
  sc_easeFactor :: real
  sc_interval :: int

text \<open>\<^verbatim>\<open>quality = Math.max(0, Math.min(5, quality))\<close>\<close>

definition clampQuality :: "real \<Rightarrow> real" where
  "clampQuality quality = max 0 (min 5 quality)"

text \<open>\<^verbatim>\<open>item.easeFactor || 2.5\<close>: an absent field and the number 0 are both falsy.\<close>

definition easeOrDefault :: "ReviewItem \<Rightarrow> real" where
  "easeOrDefault item =
     (case ri_easeFactor item of None \<Rightarrow> 5 / 2 | Some e \<Rightarrow> if e = 0 then 5 / 2 else e)"

text \<open>
  \<^verbatim>\<open>Math.max(1.3, easeFactor + (0.1 - (5 - quality) * (0.08 + (5 - quality) * 0.02)))\<close>
\<close>

definition newEaseFactor :: "real \<Rightarrow> real \<Rightarrow> real" where
  "newEaseFactor easeFactor quality =
     max (13 / 10)
       (easeFactor + (1 / 10 - (5 - quality) * (8 / 100 + (5 - quality) * (2 / 100))))"

text \<open>
  \<^verbatim>\<open>Math.ceil((item.nextReview!.getTime() - item.lastReviewed.getTime()) / (1000*60*60*24))\<close>
\<close>

definition previousInterval :: "date \<Rightarrow> date \<Rightarrow> int" where
  "previousInterval nextReview lastReviewed =
     \<lceil>real_of_int (nextReview - lastReviewed) / real_of_int msPerDay\<rceil>"

text \<open>
  \<^verbatim>\<open>calculateNextReview(item, quality)\<close>, with the clock reading \<^verbatim>\<open>new Date()\<close> as the
  parameter \<open>now\<close>. A \<^verbatim>\<open>Date\<close> object is truthy whatever its time value, so the test
  \<^verbatim>\<open>if (item.lastReviewed)\<close> asks whether the field is present. Reading
  \<^verbatim>\<open>item.nextReview!.getTime()\<close> on an absent field throws a \<^verbatim>\<open>TypeError\<close>.
\<close>

definition calculateNextReview :: "date \<Rightarrow> ReviewItem \<Rightarrow> real \<Rightarrow> error + Schedule" where
  "calculateNextReview now item quality0 =
     (let quality = clampQuality quality0;
          easeFactor = easeOrDefault item
      in case ri_lastReviewed item of
           Some lastReviewed \<Rightarrow>
             (let easeFactor' = newEaseFactor easeFactor quality
              in if quality < 3 then
                   Inr \<lparr>sc_nextReview = now + 1 * 24 * 60 * 60 * 1000,
                        sc_easeFactor = easeFactor', sc_interval = 1\<rparr>
                 else
                   (case ri_nextReview item of
                      None \<Rightarrow> Inl (TypeError ''item.nextReview is undefined'')
                    | Some nextReview \<Rightarrow>
                        (let prev = previousInterval nextReview lastReviewed;
                             interval =
                               (if prev = 1 then 6
                                else if prev = 6 then round (real_of_int prev * easeFactor')
                                else round (real_of_int prev * easeFactor'))
                         in Inr \<lparr>sc_nextReview = now + interval * 24 * 60 * 60 * 1000,
                                 sc_easeFactor = easeFactor', sc_interval = interval\<rparr>)))
         | None \<Rightarrow>
             (let interval = (if quality \<ge> 4 then 3 else if quality \<ge> 3 then 2 else 1)
              in Inr \<lparr>sc_nextReview = now + interval * 24 * 60 * 60 * 1000,
                      sc_easeFactor = easeFactor, sc_interval = interval\<rparr>))"

section \<open>The record store (database)\<close>

record VocabularyItem =
  vi_id :: "nat option"
  vi_word :: string
  vi_transliteration :: string
  vi_translation :: string
  vi_examples :: "string list option"
  vi_etymology :: "string option"
  vi_difficulty :: difficulty
  vi_tags :: "string list"
  vi_audioUrl :: "string option"

record UserProgress =
  wordId :: nat
  correctCount :: int
  incorrectCount :: int
  lastReviewed :: date
  nextReview :: date
  easeFactor :: real

text \<open>The interface \<^verbatim>\<open>DailyProgress\<close> of progressAnalytics. Its \<^verbatim>\<open>date\<close> is the string
  \<^verbatim>\<open>YYYY-MM-DD\<close> cut from \<^verbatim>\<open>toISOString()\<close>, represented here by the number of the UTC day
  (days since the epoch): for the years 0000 to 9999 two such strings are equal, or ordered by
  \<^verbatim>\<open>localeCompare\<close>, exactly as their day numbers are.\<close>

record DailyProgress =
  dp_date :: int
  dp_reviewCount :: int
  dp_correctCount :: int

text \<open>
  The values the settings store holds (\<^verbatim>\<open>value: any\<close>): numbers, the ISO timestamp string
  written by \<^verbatim>\<open>now.toISOString()\<close> (represented by its time value, which
  \<^verbatim>\<open>new Date(str)\<close> gives back), the progress history, and the booleans and strings of the
  default settings.
\<close>

datatype setting =
  Num int | IsoTime date | History "DailyProgress list" | Flag bool | Str string

text \<open>
  The database: three object stores, and the outcome of each request still to come.
  The store is an external collaborator that may fail; \<open>faults\<close> lists, for each coming
  request in order, whether it succeeds (\<open>None\<close>) or is rejected with an error. When
  the list is used up every further request succeeds.
\<close>

record db =
  vocabulary :: "VocabularyItem list"
  progress :: "UserProgress list"
  settings :: "string \<rightharpoonup> setting"
  faults :: "error option list"

text \<open>An \<^verbatim>\<open>async\<close> function: it runs on the database and resolves or rejects.\<close>

type_synonym 'a promise = "db \<Rightarrow> (error + 'a) \<times> db"

definition resolve :: "'a \<Rightarrow> 'a promise" where
  "resolve a = (\<lambda>s. (Inr a, s))"

definition reject :: "error \<Rightarrow> 'a promise" where
  "reject e = (\<lambda>s. (Inl e, s))"

text \<open>\<^verbatim>\<open>const x = await m; f x\<close>\<close>

definition await :: "'a promise \<Rightarrow> ('a \<Rightarrow> 'b promise) \<Rightarrow> 'b promise" where
  "await m f = (\<lambda>s. case m s of (Inl e, s') \<Rightarrow> (Inl e, s') | (Inr a, s') \<Rightarrow> f a s')"

text \<open>\<^verbatim>\<open>try { m } catch (error) { h error }\<close>\<close>

definition tryCatch :: "'a promise \<Rightarrow> (error \<Rightarrow> 'a promise) \<Rightarrow> 'a promise" where
  "tryCatch m h = (\<lambda>s. case m s of (Inl e, s') \<Rightarrow> h e s' | (Inr a, s') \<Rightarrow> (Inr a, s'))"

text \<open>One request to the store: it takes the next outcome off \<open>faults\<close>.\<close>

definition request :: "unit promise" where
  "request = (\<lambda>s. case faults s of
                     [] \<Rightarrow> (Inr (), s)
                   | None # fs \<Rightarrow> (Inr (), s\<lparr>faults := fs\<rparr>)
                   | Some e # fs \<Rightarrow> (Inl e, s\<lparr>faults := fs\<rparr>))"

text \<open>\<^verbatim>\<open>initDB()\<close> opens the database: a request with no result the model needs.\<close>

definition initDB :: "unit promise" where
  "initDB = request"

text \<open>\<^verbatim>\<open>db.get('progress', wordId)\<close>; the key path \<^verbatim>\<open>wordId\<close> is the key.\<close>

definition getProgress :: "nat \<Rightarrow> UserProgress option promise" where
  "getProgress k = await request (\<lambda>_ s. (Inr (find (\<lambda>p. wordId p = k) (progress s)), s))"

text \<open>\<^verbatim>\<open>db.put('progress', progress)\<close> replaces the record with the same key, or adds it.\<close>

fun putRecord :: "UserProgress \<Rightarrow> UserProgress list \<Rightarrow> UserProgress list" where
  "putRecord p [] = [p]"
| "putRecord p (x # xs) = (if wordId x = wordId p then p # xs else x # putRecord p xs)"

definition putProgress :: "UserProgress \<Rightarrow> unit promise" where
  "putProgress p = await request (\<lambda>_ s. (Inr (), s\<lparr>progress := putRecord p (progress s)\<rparr>))"

text \<open>\<^verbatim>\<open>db.get('vocabulary', id)\<close>; the key path is \<^verbatim>\<open>id\<close>.\<close>

definition getVocabulary :: "nat \<Rightarrow> VocabularyItem option promise" where
  "getVocabulary k = await request (\<lambda>_ s. (Inr (find (\<lambda>v. vi_id v = Some k) (vocabulary s)), s))"

text \<open>
  \<^verbatim>\<open>db.getAllFromIndex('progress', 'nextReview', IDBKeyRange.upperBound(now), limit)\<close>:
  the records whose index key is at most \<open>now\<close> (the bound is closed), in the order of the
  index (by \<^verbatim>\<open>nextReview\<close>, then by primary key), and the first \<open>limit\<close> of them; a count
  of 0 means no limit in IndexedDB.
\<close>

definition getAllFromIndex :: "date \<Rightarrow> nat \<Rightarrow> UserProgress list promise" where
  "getAllFromIndex upper limit =
     await request (\<lambda>_ s.
       (let inRange = sort_key (\<lambda>p. (nextReview p, wordId p))
                        (filter (\<lambda>p. nextReview p \<le> upper) (progress s))
        in (Inr (if limit = 0 then inRange else take limit inRange), s)))"

text \<open>
  \<^verbatim>\<open>Promise.all(dueItems.map(item => db.get('vocabulary', item.wordId)))\<close>: every request is
  issued; the result rejects with the first rejection, else it is the list of results.
\<close>

fun promiseAll :: "'a promise list \<Rightarrow> 'a list promise" where
  "promiseAll [] = resolve []"
| "promiseAll (m # ms) =
     (\<lambda>s. case m s of
             (Inl e, s') \<Rightarrow> (Inl e, snd (promiseAll ms s'))
           | (Inr a, s') \<Rightarrow>
               (case promiseAll ms s' of
                  (Inl e, s'') \<Rightarrow> (Inl e, s'')
                | (Inr as, s'') \<Rightarrow> (Inr (a # as), s'')))"

text \<open>\<^verbatim>\<open>vocabularyItems.filter(Boolean)\<close> drops the \<^verbatim>\<open>undefined\<close> results.\<close>

definition filterBoolean :: "'a option list \<Rightarrow> 'a list" where
  "filterBoolean xs = List.map_filter id xs"

definition getVocabularyForReview :: "date \<Rightarrow> nat \<Rightarrow> VocabularyItem list promise" where
  "getVocabularyForReview now limit =
     await initDB (\<lambda>_.
     await (getAllFromIndex now limit) (\<lambda>dueItems.
     await (promiseAll (map (\<lambda>item. getVocabulary (wordId item)) dueItems)) (\<lambda>vocabularyItems.
     resolve (filterBoolean vocabularyItems))))"

text \<open>
  The in-memory part of \<^verbatim>\<open>updateVocabularyProgress\<close>: what it does to the record between
  reading and saving it. \<^verbatim>\<open>progress.easeFactor + 0.1\<close>, \<^verbatim>\<open>progress.easeFactor - 0.2\<close> and
  \<^verbatim>\<open>progress.correctCount * progress.easeFactor\<close> are operations on doubles;
  \<^verbatim>\<open>Math.min\<close>, \<^verbatim>\<open>Math.max\<close> and \<^verbatim>\<open>Math.round\<close> return exact results.
\<close>

definition defaultProgress :: "nat \<Rightarrow> date \<Rightarrow> UserProgress" where
  "defaultProgress k now =
     \<lparr>wordId = k, correctCount = 0, incorrectCount = 0, lastReviewed = 0,
      nextReview = now, easeFactor = 5 / 2\<rparr>"

definition applyOutcome :: "date \<Rightarrow> bool \<Rightarrow> UserProgress \<Rightarrow> UserProgress" where
  "applyOutcome now correct progress0 =
     (let progress1 = progress0\<lparr>lastReviewed := now\<rparr>
      in if correct then
           (let progress2 = progress1\<lparr>correctCount := correctCount progress1 + 1\<rparr>;
                progress3 = progress2\<lparr>easeFactor :=
                              min (toDouble (easeFactor progress2 + double01)) 3\<rparr>;
                days = round (toDouble (real_of_int (correctCount progress3) *
                                        easeFactor progress3))
            in progress3\<lparr>nextReview := now + days * 24 * 60 * 60 * 1000\<rparr>)
         else
           (let progress2 = progress1\<lparr>incorrectCount := incorrectCount progress1 + 1\<rparr>;
                progress3 = progress2\<lparr>easeFactor :=
                              max (toDouble (easeFactor progress2 - double02)) double13\<rparr>
            in progress3\<lparr>nextReview := now + 1 * 60 * 60 * 1000\<rparr>))"

definition updateVocabularyProgress :: "nat \<Rightarrow> bool \<Rightarrow> date \<Rightarrow> UserProgress promise" where
  "updateVocabularyProgress k correct now =
     await initDB (\<lambda>_.
     await (getProgress k) (\<lambda>found.
       (let progress0 = (case found of Some p \<Rightarrow> p | None \<Rightarrow> defaultProgress k now);
            progress' = applyOutcome now correct progress0
        in await (putProgress progress') (\<lambda>_. resolve progress'))))"

text \<open>\<^verbatim>\<open>getSetting(id)\<close>: the stored value, or \<^verbatim>\<open>null\<close>.\<close>

definition getSetting :: "string \<Rightarrow> setting option promise" where
  "getSetting k = await initDB (\<lambda>_. await request (\<lambda>_ s. (Inr (settings s k), s)))"

definition updateSetting :: "string \<Rightarrow> setting \<Rightarrow> unit promise" where
  "updateSetting k v =
     await initDB (\<lambda>_. await request (\<lambda>_ s. (Inr (), s\<lparr>settings := (settings s)(k \<mapsto> v)\<rparr>)))"

text \<open>\<^verbatim>\<open>processReviewResponse\<close> and \<^verbatim>\<open>getDueReviews\<close> of spacedRepetition.\<close>

definition processReviewResponse :: "nat \<Rightarrow> bool \<Rightarrow> date \<Rightarrow> unit promise" where
  "processReviewResponse k correct now =
     tryCatch (await (updateVocabularyProgress k correct now) (\<lambda>_. resolve ()))
              (\<lambda>error. reject error)"


section \<open>Progress analytics (progressAnalytics)\<close>

record LearningStats =
  totalWords :: int
  learnedWords :: int
  reviewsToday :: int
  reviewsTotal :: int
  correctAnswers :: int
  incorrectAnswers :: int
  streak :: int
  lastReviewDate :: "date option"

text \<open>
  \<^verbatim>\<open>await getSetting(id) || 0\<close>: an absent setting and the number 0 give 0. The core
  writes only numbers under the keys read this way.
\<close>

definition orZero :: "setting option \<Rightarrow> int" where
  "orZero v = (case v of Some (Num n) \<Rightarrow> n | _ \<Rightarrow> 0)"

text \<open>\<^verbatim>\<open>lastReviewDateStr ? new Date(lastReviewDateStr) : null\<close>\<close>

definition toDate :: "setting option \<Rightarrow> date option" where
  "toDate v = (case v of Some (IsoTime t) \<Rightarrow> Some t | _ \<Rightarrow> None)"

text \<open>\<^verbatim>\<open>await getSetting('progressHistory') || []\<close>\<close>

definition orEmpty :: "setting option \<Rightarrow> DailyProgress list" where
  "orEmpty v = (case v of Some (History h) \<Rightarrow> h | _ \<Rightarrow> [])"

definition defaultStats :: LearningStats where
  "defaultStats =
     \<lparr>totalWords = 1000, learnedWords = 0, reviewsToday = 0, reviewsTotal = 0,
      correctAnswers = 0, incorrectAnswers = 0, streak = 0, lastReviewDate = None\<rparr>"

definition getLearningStats :: "LearningStats promise" where
  "getLearningStats =
     tryCatch
       (await (getSetting ''learnedWordsCount'') (\<lambda>learnedWordsV.
        await (getSetting ''reviewsToday'') (\<lambda>reviewsTodayV.
        await (getSetting ''reviewsTotal'') (\<lambda>reviewsTotalV.
        await (getSetting ''correctAnswers'') (\<lambda>correctAnswersV.
        await (getSetting ''incorrectAnswers'') (\<lambda>incorrectAnswersV.
        await (getSetting ''streak'') (\<lambda>streakV.
        await (getSetting ''lastReviewDate'') (\<lambda>lastReviewDateStr.
        resolve
          \<lparr>totalWords = 1000, learnedWords = orZero learnedWordsV,
           reviewsToday = orZero reviewsTodayV, reviewsTotal = orZero reviewsTotalV,
           correctAnswers = orZero correctAnswersV,
           incorrectAnswers = orZero incorrectAnswersV, streak = orZero streakV,
           lastReviewDate = toDate lastReviewDateStr\<rparr>))))))))
       (\<lambda>error. resolve defaultStats)"

text \<open>\<^verbatim>\<open>d.toISOString().split('T')[0]\<close>: the UTC calendar day of a time, as a day number.\<close>

definition isoDay :: "date \<Rightarrow> int" where
  "isoDay t = t div msPerDay"

text \<open>
  The time zone of the host, as ECMAScript has it: \<^verbatim>\<open>LocalTZA(t, isUTC)\<close> is the offset of
  local time from UTC in milliseconds, at the UTC time \<open>t\<close> when \<open>isUTC\<close> holds and at the
  local time \<open>t\<close> when it does not. It is not part of the repository, so the functions
  that read local time take it as a parameter.
\<close>

type_synonym zone = "date \<Rightarrow> bool \<Rightarrow> int"

text \<open>
  \<^verbatim>\<open>yesterday.setDate(yesterday.getDate() - 1)\<close> on a copy of \<open>now\<close>: \<^verbatim>\<open>setDate\<close> takes the
  local time \<^verbatim>\<open>LocalTime(t) = t + LocalTZA(t, true)\<close>, replaces its day of the month by the
  day before, keeping the time within the day, and stores
  \<^verbatim>\<open>UTC(newDate) = newDate - LocalTZA(newDate, false)\<close>.
\<close>

definition dayBefore :: "zone \<Rightarrow> date \<Rightarrow> date" where
  "dayBefore localTZA now =
     (let t = now + localTZA now True;
          newDate = t - msPerDay
      in newDate - localTZA newDate False)"

text \<open>The in-memory fold of \<^verbatim>\<open>updateLearningStats\<close>: from the stats read to the stats
  written.\<close>

definition isNewDay :: "LearningStats \<Rightarrow> date \<Rightarrow> bool" where
  "isNewDay stats now =
     (case lastReviewDate stats of None \<Rightarrow> True | Some prior \<Rightarrow> isoDay prior \<noteq> isoDay now)"

definition nextStreak :: "zone \<Rightarrow> LearningStats \<Rightarrow> date \<Rightarrow> int" where
  "nextStreak localTZA stats now =
     (let today = isoDay now in
      if isNewDay stats now then
        (let yesterdayStr = isoDay (dayBefore localTZA now)
         in if (case lastReviewDate stats of None \<Rightarrow> False
                | Some prior \<Rightarrow> isoDay prior = yesterdayStr)
            then streak stats + 1
            else if (case lastReviewDate stats of None \<Rightarrow> True
                     | Some prior \<Rightarrow> isoDay prior \<noteq> today)
            then 1
            else streak stats)
      else streak stats)"

definition foldOutcome :: "zone \<Rightarrow> bool \<Rightarrow> date \<Rightarrow> LearningStats \<Rightarrow> LearningStats" where
  "foldOutcome localTZA correct now stats =
     (let reviewsToday' = (if isNewDay stats now then 1 else reviewsToday stats + 1);
          streak' = nextStreak localTZA stats now;
          correctAnswers' = (if correct then correctAnswers stats + 1 else correctAnswers stats);
          incorrectAnswers' =
            (if correct then incorrectAnswers stats else incorrectAnswers stats + 1);
          learnedWords' = min (totalWords stats) (correctAnswers' div 3)
      in \<lparr>totalWords = totalWords stats, learnedWords = learnedWords',
          reviewsToday = reviewsToday', reviewsTotal = reviewsTotal stats + 1,
          correctAnswers = correctAnswers', incorrectAnswers = incorrectAnswers',
          streak = streak', lastReviewDate = Some now\<rparr>)"

text \<open>
  The in-memory part of \<^verbatim>\<open>updateDailyProgress\<close>. \<^verbatim>\<open>find\<close> returns the first entry of
  the date, the very object the array holds, so the increments change that array element;
  with no such entry a new one is pushed at the end.
\<close>

fun mutateFirst :: "('a \<Rightarrow> bool) \<Rightarrow> ('a \<Rightarrow> 'a) \<Rightarrow> 'a list \<Rightarrow> 'a list" where
  "mutateFirst P f [] = []"
| "mutateFirst P f (x # xs) = (if P x then f x # xs else x # mutateFirst P f xs)"

definition bump :: "bool \<Rightarrow> DailyProgress \<Rightarrow> DailyProgress" where
  "bump correct todayEntry =
     (let e1 = todayEntry\<lparr>dp_reviewCount := dp_reviewCount todayEntry + 1\<rparr>
      in if correct then e1\<lparr>dp_correctCount := dp_correctCount e1 + 1\<rparr> else e1)"

definition upsert :: "int \<Rightarrow> bool \<Rightarrow> DailyProgress list \<Rightarrow> DailyProgress list" where
  "upsert date correct progressHistory =
     (case find (\<lambda>entry. dp_date entry = date) progressHistory of
        Some todayEntry \<Rightarrow>
          mutateFirst (\<lambda>entry. dp_date entry = date) (bump correct) progressHistory
      | None \<Rightarrow>
          progressHistory @
            [\<lparr>dp_date = date, dp_reviewCount = 1,
              dp_correctCount = (if correct then 1 else 0)\<rparr>])"

text \<open>
  \<^verbatim>\<open>.sort((a, b) => b.date.localeCompare(a.date)).slice(0, 30)\<close>: a stable sort, descending
  by date (ascending by the negated day number), and its first 30 entries.
\<close>

definition recent :: "DailyProgress list \<Rightarrow> DailyProgress list" where
  "recent progressHistory = take 30 (sort_key (\<lambda>entry. - dp_date entry) progressHistory)"

definition updateDailyProgress :: "int \<Rightarrow> bool \<Rightarrow> unit promise" where
  "updateDailyProgress date correct =
     tryCatch
       (await (getSetting ''progressHistory'') (\<lambda>v.
          (let progressHistory = upsert date correct (orEmpty v);
               recentHistory = recent progressHistory
           in await (updateSetting ''progressHistory'' (History recentHistory)) (\<lambda>_.
              resolve ()))))
       (\<lambda>error. resolve ())"

definition updateLearningStats :: "zone \<Rightarrow> bool \<Rightarrow> date \<Rightarrow> LearningStats promise" where
  "updateLearningStats localTZA correct now =
     tryCatch
       (await getLearningStats (\<lambda>stats.
          (let today = isoDay now;
               stats' = foldOutcome localTZA correct now stats
           in await (updateSetting ''learnedWordsCount'' (Num (learnedWords stats'))) (\<lambda>_.
              await (updateSetting ''reviewsToday'' (Num (reviewsToday stats'))) (\<lambda>_.
              await (updateSetting ''reviewsTotal'' (Num (reviewsTotal stats + 1))) (\<lambda>_.
              await (updateSetting ''correctAnswers'' (Num (correctAnswers stats'))) (\<lambda>_.
              await (updateSetting ''incorrectAnswers'' (Num (incorrectAnswers stats'))) (\<lambda>_.
              await (updateSetting ''streak'' (Num (streak stats'))) (\<lambda>_.
              await (updateSetting ''lastReviewDate'' (IsoTime now)) (\<lambda>_.
              await (updateDailyProgress today correct) (\<lambda>_.
              resolve stats')))))))))))
       (\<lambda>error. reject error)"

section \<open>Sequences of reviews\<close>

text \<open>A scheduler update: a graded review with its quality, or a binary outcome.\<close>

datatype update = Graded real | Binary bool

text \<open>
  The item handed to \<^verbatim>\<open>calculateNextReview\<close>: the fields of the progress record when the
  word has one, none of the optional fields when it has not (the vocabulary fields play no
  part in the schedule).
\<close>

definition reviewItem :: "nat \<Rightarrow> UserProgress option \<Rightarrow> ReviewItem" where
  "reviewItem k st =
     (case st of
        None \<Rightarrow>
          \<lparr>ri_id = k, ri_word = [], ri_transliteration = [], ri_translation = [],
           ri_difficulty = beginner, ri_lastReviewed = None, ri_nextReview = None,
           ri_easeFactor = None, ri_correctCount = None, ri_incorrectCount = None\<rparr>
      | Some p \<Rightarrow>
          \<lparr>ri_id = k, ri_word = [], ri_transliteration = [], ri_translation = [],
           ri_difficulty = beginner, ri_lastReviewed = Some (lastReviewed p),
           ri_nextReview = Some (nextReview p), ri_easeFactor = Some (easeFactor p),
           ri_correctCount = Some (correctCount p),
           ri_incorrectCount = Some (incorrectCount p)\<rparr>)"

text \<open>
  Modelled from the spec: the write-back of a graded review. The repository has no caller
  that stores what \<^verbatim>\<open>calculateNextReview\<close> returns; the specification's data flow is
  "Scheduler computes new difficulty state, store persists it", on a review state that is
  "created lazily on first review (default state) if absent; updated in place on every
  subsequent review". The record keeps its counters and takes the time of the review
  and the scheduler's \<^verbatim>\<open>nextReview\<close> and \<^verbatim>\<open>easeFactor\<close>.
\<close>

definition scheduleReview ::
  "nat \<Rightarrow> date \<Rightarrow> real \<Rightarrow> UserProgress option \<Rightarrow> error + UserProgress" where
  "scheduleReview k now quality st =
     (case calculateNextReview now (reviewItem k st) quality of
        Inl e \<Rightarrow> Inl e
      | Inr r \<Rightarrow>
          Inr ((case st of None \<Rightarrow> defaultProgress k now | Some p \<Rightarrow> p)
                 \<lparr>lastReviewed := now, nextReview := sc_nextReview r,
                  easeFactor := sc_easeFactor r\<rparr>))"

text \<open>The record \<^verbatim>\<open>updateVocabularyProgress\<close> saves, from the record it found or none.\<close>

definition recordOutcome :: "nat \<Rightarrow> date \<Rightarrow> bool \<Rightarrow> UserProgress option \<Rightarrow> UserProgress" where
  "recordOutcome k now correct st =
     applyOutcome now correct (case st of None \<Rightarrow> defaultProgress k now | Some p \<Rightarrow> p)"

fun applyUpdates ::
  "nat \<Rightarrow> (date \<times> update) list \<Rightarrow> UserProgress option \<Rightarrow> error + UserProgress option" where
  "applyUpdates k [] st = Inr st"
| "applyUpdates k ((now, Graded quality) # us) st =
     (case scheduleReview k now quality st of
        Inl e \<Rightarrow> Inl e
      | Inr p \<Rightarrow> applyUpdates k us (Some p))"
| "applyUpdates k ((now, Binary correct) # us) st =
     applyUpdates k us (Some (recordOutcome k now correct st))"

text \<open>An update that is a binary one, or a graded one of quality at most 4.\<close>

definition atMostFour :: "date \<times> update \<Rightarrow> bool" where
  "atMostFour u = (case snd u of Binary _ \<Rightarrow> True | Graded quality \<Rightarrow> quality \<le> 4)"

text \<open>Reviews recorded one after the other in the daily history.\<close>

fun recordDays :: "(int \<times> bool) list \<Rightarrow> db \<Rightarrow> db" where
  "recordDays [] s = s"
| "recordDays ((date, correct) # events) s =
     recordDays events (snd (updateDailyProgress date correct s))"

text \<open>What the settings store holds, read the way the code reads it.\<close>

definition storedHistory :: "db \<Rightarrow> DailyProgress list" where
  "storedHistory s = orEmpty (settings s ''progressHistory'')"

definition storedStreak :: "db \<Rightarrow> int" where
  "storedStreak s = orZero (settings s ''streak'')"

definition storedLastReviewDate :: "db \<Rightarrow> date option" where
  "storedLastReviewDate s = toDate (settings s ''lastReviewDate'')"

definition storedStats :: "db \<Rightarrow> LearningStats" where
  "storedStats s =
     \<lparr>totalWords = 1000, learnedWords = orZero (settings s ''learnedWordsCount''),
      reviewsToday = orZero (settings s ''reviewsToday''),
      reviewsTotal = orZero (settings s ''reviewsTotal''),
      correctAnswers = orZero (settings s ''correctAnswers''),
      incorrectAnswers = orZero (settings s ''incorrectAnswers''),
      streak = storedStreak s, lastReviewDate = storedLastReviewDate s\<rparr>"

text \<open>The streaks returned by successive calls of \<^verbatim>\<open>updateLearningStats\<close>.\<close>

fun streaks :: "zone \<Rightarrow> (bool \<times> date) list \<Rightarrow> db \<Rightarrow> (error + int) list" where
  "streaks localTZA [] s = []"
| "streaks localTZA ((correct, now) # reviews) s =
     (case updateLearningStats localTZA correct now s of
        (r, s') \<Rightarrow> map_sum id streak r # streaks localTZA reviews s')"



text \<open>Properties of a history entry and of a history, as the proofs carry them.\<close>

definition counted :: "DailyProgress \<Rightarrow> bool" where
  "counted e = (dp_correctCount e \<le> dp_reviewCount e \<and> 1 \<le> dp_reviewCount e)"

definition tidy :: "DailyProgress list \<Rightarrow> bool" where
  "tidy h = (length h \<le> 30 \<and> distinct (map dp_date h) \<and>
             sorted_wrt (\<lambda>a b. dp_date b \<le> dp_date a) h)"

subsection \<open>Concrete data\<close>

definition staleItem :: ReviewItem where
  "staleItem =
     \<lparr>ri_id = 1, ri_word = ''kitab'', ri_transliteration = ''kitab'', ri_translation = ''book'',
      ri_difficulty = beginner, ri_lastReviewed = Some 0, ri_nextReview = Some 0,
      ri_easeFactor = Some (5 / 2), ri_correctCount = Some 1, ri_incorrectCount = Some 0\<rparr>"

definition sixDayItem :: "date \<Rightarrow> ReviewItem" where
  "sixDayItem now =
     \<lparr>ri_id = 1, ri_word = ''kitab'', ri_transliteration = ''kitab'', ri_translation = ''book'',
      ri_difficulty = beginner, ri_lastReviewed = Some (now - 6 * msPerDay),
      ri_nextReview = Some now, ri_easeFactor = Some (5 / 2),
      ri_correctCount = None, ri_incorrectCount = None\<rparr>"

definition perfectReviews :: "(date \<times> update) list" where
  "perfectReviews =
     [(0, Graded 5), (10 * msPerDay, Graded 5), (20 * msPerDay, Graded 5),
      (30 * msPerDay, Graded 5), (40 * msPerDay, Graded 5), (50 * msPerDay, Graded 5),
      (60 * msPerDay, Graded 5)]"

definition mixedReviews :: "(date \<times> update) list" where
  "mixedReviews = [(0, Binary True), (5 * msPerDay, Graded 4), (6 * msPerDay, Binary False)]"

definition emptyDb :: db where
  "emptyDb = \<lparr>vocabulary = [], progress = [], settings = Map.empty, faults = []\<rparr>"


definition kitab :: VocabularyItem where
  "kitab =
     \<lparr>vi_id = Some 1, vi_word = ''kitab'', vi_transliteration = ''kitab'',
      vi_translation = ''book'', vi_examples = None, vi_etymology = None,
      vi_difficulty = beginner, vi_tags = [''quranic''], vi_audioUrl = None\<rparr>"

definition qalam :: VocabularyItem where
  "qalam =
     \<lparr>vi_id = Some 2, vi_word = ''qalam'', vi_transliteration = ''qalam'',
      vi_translation = ''pen'', vi_examples = None, vi_etymology = None,
      vi_difficulty = beginner, vi_tags = [''quranic''], vi_audioUrl = None\<rparr>"

definition kitabProgress :: UserProgress where
  "kitabProgress =
     \<lparr>wordId = 1, correctCount = 2, incorrectCount = 0, lastReviewed = 0,
      nextReview = 5 * msPerDay, easeFactor = 5 / 2\<rparr>"

definition qalamProgress :: UserProgress where
  "qalamProgress =
     \<lparr>wordId = 2, correctCount = 0, incorrectCount = 1, lastReviewed = 0,
      nextReview = 50 * msPerDay, easeFactor = 9 / 4\<rparr>"

definition twoWordDb :: db where
  "twoWordDb =
     \<lparr>vocabulary = [kitab, qalam], progress = [kitabProgress, qalamProgress],
      settings = Map.empty, faults = []\<rparr>"

text \<open>A word answered correctly 29 times, with the ease factor at the double \<^verbatim>\<open>1.95\<close>.\<close>

definition drilledProgress :: UserProgress where
  "drilledProgress =
     \<lparr>wordId = 3, correctCount = 29, incorrectCount = 3, lastReviewed = 0,
      nextReview = 5 * msPerDay, easeFactor = 8782019273372467 / 4503599627370496\<rparr>"

definition drilledDb :: db where
  "drilledDb =
     \<lparr>vocabulary = [], progress = [drilledProgress], settings = Map.empty, faults = []\<rparr>"

text \<open>Six correct answers, three incorrect ones and a correct one, a day apart.\<close>

definition tenAnswers :: "(date \<times> update) list" where
  "tenAnswers =
     [(0, Binary True), (1 * msPerDay, Binary True), (2 * msPerDay, Binary True),
      (3 * msPerDay, Binary True), (4 * msPerDay, Binary True), (5 * msPerDay, Binary True),
      (6 * msPerDay, Binary False), (7 * msPerDay, Binary False),
      (8 * msPerDay, Binary False), (9 * msPerDay, Binary True)]"

text \<open>A zone with no change of offset.\<close>

definition fixedOffset :: "int \<Rightarrow> zone" where
  "fixedOffset offset = (\<lambda>t isUTC. offset)"

text \<open>
  The zone America/New_York around its change from daylight-saving time (4 hours behind
  UTC) to standard time (5 hours behind) on 3 November 2024, at 06:00 UTC, when local
  clocks went from 02:00 back to 01:00. A local time that occurs twice is read with the
  offset before the change, as ECMAScript says.
\<close>

definition newYork :: zone where
  "newYork t isUTC =
     (if isUTC then (if t < 1730613600000 then - 4 * msPerHour else - 5 * msPerHour)
      else (if t < 1730599200000 then - 4 * msPerHour else - 5 * msPerHour))"

text \<open>00:30 UTC on 3 November 2024 (20:30 on 2 November in New York) and 00:30 UTC on
  4 November 2024 (19:30 on 3 November in New York).\<close>

definition eveningOne :: date where
  "eveningOne = 1730593800000"

definition eveningTwo :: date where
  "eveningTwo = 1730680200000"

definition threeReviews :: "(int \<times> bool) list" where
  "threeReviews = [(10, True), (11, False), (10, False)]"

section \<open>The scheduler: intervals and ease factors\<close>

lemmas scheduler_defs =
  calculateNextReview_def clampQuality_def easeOrDefault_def newEaseFactor_def
  previousInterval_def msPerDay_def round_def Let_def

lemma newEaseFactor_floor: "13 / 10 \<le> newEaseFactor e q"
  by (simp add: newEaseFactor_def)

lemma round_grows:
  assumes "2 \<le> n" and "13 / 10 \<le> e"
  shows "1 < round (real_of_int n * e)"
proof -
  have "2 * (13 / 10) \<le> real_of_int n * e"
    using assms by (intro mult_mono) simp_all
  then have "2 \<le> real_of_int n * e + 1 / 2" by simp
  then have "2 \<le> \<lfloor>real_of_int n * e + 1 / 2\<rfloor>" by (simp add: le_floor_iff)
  then show ?thesis by (simp add: round_def)
qed

lemma previousInterval_pos:
  assumes "l < n"
  shows "1 \<le> previousInterval n l"
proof -
  have "0 < real_of_int (n - l) / real_of_int msPerDay"
    using assms by (simp add: msPerDay_def)
  then have "0 < \<lceil>real_of_int (n - l) / real_of_int msPerDay\<rceil>"
    by (simp add: ceiling_less_iff)
  then show ?thesis by (simp add: previousInterval_def)
qed

text \<open>
  Claim C9. Whatever the item (reviewed before or not, with or without a next review date)
  and whatever the clock, a quality below 3 makes \<^verbatim>\<open>calculateNextReview\<close> return, and
  the interval it returns is 1.
\<close>

theorem low_quality_interval_one:
  assumes "quality < 3"
  shows "\<exists>r. calculateNextReview now item quality = Inr r \<and> sc_interval r = 1"
  using assms
  by (auto simp add: calculateNextReview_def clampQuality_def Let_def split: option.splits)

theorem low_quality_interval_one_witness:
  "(2::real) < 3 \<and> (\<exists>r. calculateNextReview 0 staleItem 2 = Inr r \<and> sc_interval r = 1)"
  using low_quality_interval_one [of 2 0 staleItem] by simp

text \<open>
  Claim C6. The item with ease factor 2.5, last reviewed six days before \<open>now\<close> and due
  at \<open>now\<close>, reviewed with quality 5: the previous interval is 6, the new ease factor is
  2.6, and the interval is \<open>round (6 * 2.6) = 16\<close> days.
\<close>

theorem six_day_scenario:
  "previousInterval now (now - 6 * msPerDay) = 6 \<and>
   newEaseFactor (5 / 2) 5 = 26 / 10 \<and>
   round (6 * (26 / 10 :: real)) = 16 \<and>
   calculateNextReview now (sixDayItem now) 5 =
     Inr \<lparr>sc_nextReview = now + 16 * msPerDay, sc_easeFactor = 26 / 10, sc_interval = 16\<rparr>"
  by (simp add: scheduler_defs sixDayItem_def)

text \<open>
  Claim C3, as stated, fails: for an item whose next review date is not later than its last
  review (here both are the epoch) the previous interval is 0, so quality 5 gives the interval
  \<open>round (0 * 2.6) = 0\<close>, which is not greater than the interval 1 that quality 2 gives.
\<close>

theorem stale_item_interval_not_longer:
  "calculateNextReview 0 staleItem 5 =
     Inr \<lparr>sc_nextReview = 0, sc_easeFactor = 26 / 10, sc_interval = 0\<rparr> \<and>
   calculateNextReview 0 staleItem 2 =
     Inr \<lparr>sc_nextReview = msPerDay, sc_easeFactor = 218 / 100, sc_interval = 1\<rparr> \<and>
   \<not> ((1::int) < 0)"
  by (simp add: scheduler_defs staleItem_def)

text \<open>
  Claim C3, amended. For an item never reviewed, or one whose next review date is strictly
  later than its last review, a quality of at least 4 and a quality of at most 2 both return,
  and the first interval is strictly greater than the second.
\<close>

theorem higher_quality_longer_interval:
  assumes "4 \<le> q" and "q' \<le> 2"
    and "ri_lastReviewed item = None \<or>
         (\<exists>l n. ri_lastReviewed item = Some l \<and> ri_nextReview item = Some n \<and> l < n)"
  shows "\<exists>r r'. calculateNextReview now item q = Inr r \<and>
                 calculateNextReview now item q' = Inr r' \<and>
                 sc_interval r' < sc_interval r"
proof (cases "ri_lastReviewed item")
  case None
  with assms(1,2) show ?thesis
    by (simp add: calculateNextReview_def clampQuality_def Let_def)
next
  case (Some l)
  with assms(3) obtain n where n: "ri_nextReview item = Some n" and ln: "l < n" by auto
  define e where "e = newEaseFactor (easeOrDefault item) (clampQuality q)"
  have e: "13 / 10 \<le> e" unfolding e_def by (rule newEaseFactor_floor)
  have p: "1 \<le> previousInterval n l" using ln by (rule previousInterval_pos)
  have "1 < (if previousInterval n l = 1 then 6
             else round (real_of_int (previousInterval n l) * e))"
    using p e round_grows[of "previousInterval n l" e] by auto
  moreover have "\<not> clampQuality q < 3" "clampQuality q' < 3"
    using assms(1,2) by (simp_all add: clampQuality_def)
  ultimately show ?thesis
    using Some n by (simp add: calculateNextReview_def Let_def e_def split: if_splits)
qed

theorem higher_quality_longer_interval_witness:
  "(4::real) \<le> 5 \<and> (2::real) \<le> 2 \<and>
   (\<exists>l n. ri_lastReviewed (sixDayItem 0) = Some l \<and> ri_nextReview (sixDayItem 0) = Some n \<and>
           l < n) \<and>
   (\<exists>r r'. calculateNextReview 0 (sixDayItem 0) 5 = Inr r \<and>
            calculateNextReview 0 (sixDayItem 0) 2 = Inr r' \<and>
            sc_interval r' < sc_interval r)"
proof -
  have later: "\<exists>l n. ri_lastReviewed (sixDayItem 0) = Some l \<and>
                      ri_nextReview (sixDayItem 0) = Some n \<and> l < n"
    by (simp add: sixDayItem_def msPerDay_def)
  then have "ri_lastReviewed (sixDayItem 0) = None \<or>
        (\<exists>l n. ri_lastReviewed (sixDayItem 0) = Some l \<and>
                ri_nextReview (sixDayItem 0) = Some n \<and> l < n)" ..
  from higher_quality_longer_interval [OF _ _ this, of 5 2 0] later show ?thesis by simp
qed

section \<open>Rounding to a double\<close>

lemma tiesToEven_le:
  assumes "r \<le> of_int N"
  shows "tiesToEven r \<le> N"
proof (cases "r - of_int \<lfloor>r\<rfloor> < 1 / 2")
  case True
  moreover have "\<lfloor>r\<rfloor> \<le> N" using assms by (simp add: floor_le_iff)
  ultimately show ?thesis by (simp add: tiesToEven_def Let_def)
next
  case False
  then have "real_of_int \<lfloor>r\<rfloor> < real_of_int N" using assms by linarith
  then have "\<lfloor>r\<rfloor> + 1 \<le> N" by simp
  moreover have "tiesToEven r \<le> \<lfloor>r\<rfloor> + 1" by (simp add: tiesToEven_def Let_def)
  ultimately show ?thesis by linarith
qed

lemma tiesToEven_ge:
  assumes "of_int N \<le> r"
  shows "N \<le> tiesToEven r"
proof -
  from assms have "N \<le> \<lfloor>r\<rfloor>" by (simp add: le_floor_iff)
  then show ?thesis by (simp add: tiesToEven_def Let_def)
qed

lemma binade_bounds:
  assumes "x \<noteq> 0"
  shows "2 powr of_int (binade x) \<le> \<bar>x\<bar>" and "\<bar>x\<bar> < 2 powr (of_int (binade x) + 1)"
  using assms floor_log_eq_powr_iff[of "\<bar>x\<bar>" 2 "binade x"] by (simp_all add: binade_def)

lemma binade_eqI:
  assumes "2 powr of_int k \<le> \<bar>x\<bar>" and "\<bar>x\<bar> < 2 powr (of_int k + 1)"
  shows "binade x = k"
proof -
  have "0 < \<bar>x\<bar>" using assms(1) powr_gt_zero[of 2 "of_int k"] by linarith
  then show ?thesis
    using assms floor_log_eq_powr_iff[of "\<bar>x\<bar>" 2 k] by (simp add: binade_def)
qed

lemma ulp_pos: "0 < ulp x"
  by (simp add: ulp_def)

text \<open>Rounding a number between \<open>2 ^ n\<close> and \<open>2 ^ (n + 1)\<close>, for evaluation.\<close>

lemma toDouble_eval:
  assumes "2 ^ n \<le> x" and "x < 2 ^ Suc n" and "n \<le> 52"
  shows "toDouble x = of_int (tiesToEven (x * 2 ^ (52 - n))) / 2 ^ (52 - n)"
proof -
  have x: "0 < x" using assms(1) zero_less_power[of "2::real" n] by linarith
  have "binade x = int n"
    using assms x by (intro binade_eqI) (simp_all add: powr_realpow powr_add)
  then have "ulp x = 2 powr (- real (52 - n))"
    using assms(3) by (simp add: ulp_def)
  then have u: "ulp x = 1 / 2 ^ (52 - n)"
    by (simp add: powr_minus powr_realpow inverse_eq_divide)
  show ?thesis using x by (simp add: toDouble_def u)
qed

lemma toDouble_nonpos:
  assumes "x \<le> 0"
  shows "toDouble x \<le> 0"
proof -
  from assms have "x / ulp x \<le> of_int 0"
    using ulp_pos[of x] by (simp add: divide_le_0_iff)
  then have "tiesToEven (x / ulp x) \<le> 0" by (rule tiesToEven_le)
  then have "of_int (tiesToEven (x / ulp x)) * ulp x \<le> 0"
    using ulp_pos[of x] by (simp add: mult_le_0_iff)
  then show ?thesis by (simp add: toDouble_def)
qed

text \<open>Rounding does not cross a multiple of the unit in the last place.\<close>

lemma toDouble_le_mult:
  assumes "0 < x" and "x \<le> of_int N * ulp x"
  shows "toDouble x \<le> of_int N * ulp x"
proof -
  have "x / ulp x \<le> of_int N" using assms(2) ulp_pos[of x] by (simp add: pos_divide_le_eq)
  then have "tiesToEven (x / ulp x) \<le> N" by (rule tiesToEven_le)
  then have "of_int (tiesToEven (x / ulp x)) * ulp x \<le> of_int N * ulp x"
    using ulp_pos[of x] by simp
  then show ?thesis using assms(1) by (simp add: toDouble_def)
qed

lemma toDouble_ge_mult:
  assumes "0 < x" and "of_int N * ulp x \<le> x"
  shows "of_int N * ulp x \<le> toDouble x"
proof -
  have "of_int N \<le> x / ulp x" using assms(2) ulp_pos[of x] by (simp add: pos_le_divide_eq)
  then have "N \<le> tiesToEven (x / ulp x)" by (rule tiesToEven_ge)
  then have "of_int N * ulp x \<le> of_int (tiesToEven (x / ulp x)) * ulp x"
    using ulp_pos[of x] by simp
  then show ?thesis using assms(1) by (simp add: toDouble_def)
qed

text \<open>In particular it does not cross the doubles \<^verbatim>\<open>3.0\<close> and \<^verbatim>\<open>1.3\<close>.\<close>

lemma toDouble_le_3:
  assumes "x \<le> 3"
  shows "toDouble x \<le> 3"
proof (cases "0 < x")
  case False
  then have "toDouble x \<le> 0" by (intro toDouble_nonpos) simp
  then show ?thesis by simp
next
  case True
  have small: "binade x < 2"
  proof (rule ccontr)
    assume "\<not> binade x < 2"
    then have "(2::real) powr 2 \<le> 2 powr of_int (binade x)" by (intro powr_mono) simp_all
    with binade_bounds(1)[of x] True assms show False by simp
  qed
  define e where "e = max (binade x) (- 1022)"
  have e: "e \<le> 1" using small by (simp add: e_def)
  have u: "ulp x = 2 powr (of_int e - 52)" by (simp add: ulp_def e_def)
  have "(2::real) ^ nat (52 - e) = 2 powr real (nat (52 - e))" by (simp add: powr_realpow)
  also have "real (nat (52 - e)) = 52 - of_int e" using e by simp
  finally have "2 ^ nat (52 - e) * ulp x = 2 powr (52 - of_int e) * 2 powr (of_int e - 52)"
    by (simp add: u)
  also have "\<dots> = 2 powr 0" by (simp flip: powr_add)
  finally have three: "of_int (3 * 2 ^ nat (52 - e)) * ulp x = 3" by simp
  from toDouble_le_mult[OF True, of "3 * 2 ^ nat (52 - e)"] assms
  show ?thesis unfolding three by simp
qed

lemma toDouble_ge_double13:
  assumes "double13 \<le> x"
  shows "double13 \<le> toDouble x"
proof -
  have x: "0 < x" using assms by (simp add: double13_def)
  have "0 \<le> binade x"
  proof (rule ccontr)
    assume "\<not> 0 \<le> binade x"
    then have "(2::real) powr (of_int (binade x) + 1) \<le> 2 powr 0"
      by (intro powr_mono) simp_all
    with binade_bounds(2)[of x] x assms show False by (simp add: double13_def)
  qed
  then have u: "ulp x = 2 powr (of_int (binade x) - 52)" by (simp add: ulp_def max_def)
  from \<open>0 \<le> binade x\<close> consider "binade x = 0" | "1 \<le> binade x" by linarith
  then show ?thesis
  proof cases
    case 1
    then have "ulp x = 1 / 2 ^ 52" by (simp add: u powr_minus inverse_eq_divide)
    then have "of_int 5854679515581645 * ulp x = double13" by (simp add: double13_def)
    with toDouble_ge_mult[OF x, of 5854679515581645] assms show ?thesis by simp
  next
    case 2
    then have low: "2 \<le> (2::real) powr of_int (binade x)"
      using powr_mono[of 1 "of_int (binade x)" "2::real"] by simp
    have p: "of_int (2 ^ 52) * ulp x = 2 powr of_int (binade x)"
      by (simp add: u powr_diff)
    moreover have "2 powr of_int (binade x) \<le> x" using binade_bounds(1)[of x] x by simp
    ultimately have "of_int (2 ^ 52) * ulp x \<le> toDouble x"
      using toDouble_ge_mult[OF x, of "2 ^ 52"] by simp
    with p low show ?thesis by (simp add: double13_def)
  qed
qed

lemma double13_ge: "13 / 10 \<le> double13"
  by (simp add: double13_def)

subsection \<open>The binary update\<close>

lemma request_ok: "faults s = [] \<Longrightarrow> request s = (Inr (), s)"
  by (simp add: request_def)

text \<open>
  Claim C5. On a store that answers, for a word that has a progress record \<open>p\<close>,
  \<^verbatim>\<open>updateVocabularyProgress\<close> saves and returns: on a correct outcome, \<open>p\<close> with
  \<^verbatim>\<open>correctCount\<close> one more, the ease factor plus 0.1 but at most 3.0, and the next review
  at \<open>now\<close> plus \<open>round (correctCount * easeFactor)\<close> days, on the new counter and the new
  ease factor; on an incorrect outcome, \<open>p\<close> with \<^verbatim>\<open>incorrectCount\<close> one more, the ease
  factor minus 0.2 but at least 1.3, and the next review at \<open>now\<close> plus one hour. The sum,
  the difference and the product are those of doubles, on the literals \<^verbatim>\<open>0.1\<close>, \<^verbatim>\<open>0.2\<close>
  and \<^verbatim>\<open>1.3\<close> as doubles.
\<close>

theorem binary_update_path:
  assumes "faults s = []" and "find (\<lambda>p. wordId p = k) (progress s) = Some p"
  shows "updateVocabularyProgress k correct now s =
    (let p' =
       (if correct then
          p\<lparr>lastReviewed := now,
            correctCount := correctCount p + 1,
            easeFactor := min (toDouble (easeFactor p + double01)) 3,
            nextReview :=
              now + round (toDouble (real_of_int (correctCount p + 1) *
                                     min (toDouble (easeFactor p + double01)) 3)) * msPerDay\<rparr>
        else
          p\<lparr>lastReviewed := now,
            incorrectCount := incorrectCount p + 1,
            easeFactor := max (toDouble (easeFactor p - double02)) double13,
            nextReview := now + msPerHour\<rparr>)
     in (Inr p', s\<lparr>progress := putRecord p' (progress s)\<rparr>))"
  using assms
  by (simp add: updateVocabularyProgress_def await_def initDB_def request_ok getProgress_def
      putProgress_def resolve_def applyOutcome_def Let_def msPerDay_def msPerHour_def
      mult.commute)

text \<open>
  At the word answered correctly 29 times with the ease factor \<^verbatim>\<open>1.95\<close>, a correct
  answer stores the ease factor \<^verbatim>\<open>2.05\<close> and the next review 61 days on: the product
  \<^verbatim>\<open>30 * 2.05\<close> is the double \<^verbatim>\<open>61.49999999999999\<close>.
\<close>

theorem binary_update_path_witness:
  "faults drilledDb = [] \<and>
   find (\<lambda>p. wordId p = 3) (progress drilledDb) = Some drilledProgress \<and>
   updateVocabularyProgress 3 True (7 * msPerDay) drilledDb =
     (Inr \<lparr>wordId = 3, correctCount = 30, incorrectCount = 3, lastReviewed = 7 * msPerDay,
           nextReview = 68 * msPerDay, easeFactor = 2308094809027379 / 1125899906842624\<rparr>,
      drilledDb\<lparr>progress :=
        [\<lparr>wordId = 3, correctCount = 30, incorrectCount = 3, lastReviewed = 7 * msPerDay,
          nextReview = 68 * msPerDay,
          easeFactor = 2308094809027379 / 1125899906842624\<rparr>]\<rparr>)"
proof -
  have f: "faults drilledDb = []" by (simp add: drilledDb_def)
  have p: "find (\<lambda>p. wordId p = 3) (progress drilledDb) = Some drilledProgress"
    by (simp add: drilledDb_def drilledProgress_def)
  have sum: "toDouble (easeFactor drilledProgress + double01) =
             2308094809027379 / 1125899906842624"
    by (simp add: toDouble_eval[where n=1] drilledProgress_def double01_def tiesToEven_def
        Let_def)
  have product: "toDouble (34621422135410685 / 562949953421312) =
                 8655355533852671 / 140737488355328"
    by (simp add: toDouble_eval[where n=5] tiesToEven_def Let_def)
  from binary_update_path [OF f p, of True "7 * msPerDay"] f p show ?thesis
    by (simp add: sum Let_def) (simp add: drilledDb_def drilledProgress_def msPerDay_def
        product round_def)
qed

text \<open>
  Along six correct answers, three incorrect ones and a correct one on a new word the ease
  factor ends at the double \<^verbatim>\<open>2.4999999999999996\<close>, and the last answer sets the next
  review 17 days on: \<^verbatim>\<open>7 * 2.4999999999999996\<close> is the double \<^verbatim>\<open>17.499999999999996\<close>.
\<close>

lemma ten_answers:
  "applyUpdates 1 tenAnswers None =
     Inr (Some \<lparr>wordId = 1, correctCount = 7, incorrectCount = 3,
                lastReviewed = 9 * msPerDay, nextReview = 26 * msPerDay,
                easeFactor = 5629499534213119 / 2251799813685248\<rparr>)"
  by (simp add: tenAnswers_def recordOutcome_def applyOutcome_def defaultProgress_def
      toDouble_eval[where n=1] toDouble_eval[where n=2] toDouble_eval[where n=3]
      toDouble_eval[where n=4] tiesToEven_def double01_def double02_def double13_def
      Let_def round_def msPerDay_def)

subsection \<open>Ease factors along a sequence of updates\<close>

lemma newEaseFactor_ceiling:
  assumes "e \<le> 3" and "q \<le> 4"
  shows "newEaseFactor e (clampQuality q) \<le> 3"
proof -
  define d where "d = 5 - clampQuality q"
  have d: "1 \<le> d" using assms(2) by (simp add: d_def clampQuality_def)
  have "0 \<le> (d - 1) * (d + 5)" using d by (intro mult_nonneg_nonneg) simp_all
  also have "(d - 1) * (d + 5) = 50 * (d * (8 / 100 + d * (2 / 100)) - 1 / 10)"
    by (simp add: algebra_simps)
  finally have "1 / 10 - d * (8 / 100 + d * (2 / 100)) \<le> 0" by simp
  with assms(1) show ?thesis by (simp add: newEaseFactor_def d_def)
qed

lemma scheduleReview_total: "\<exists>p. scheduleReview k now q st = Inr p"
  by (cases st) (simp_all add: scheduleReview_def reviewItem_def calculateNextReview_def Let_def)

lemma scheduleReview_floor:
  assumes "scheduleReview k now q st = Inr p'"
    and "case st of None \<Rightarrow> True | Some p \<Rightarrow> 13 / 10 \<le> easeFactor p"
  shows "13 / 10 \<le> easeFactor p'"
proof (cases st)
  case None
  with assms(1) show ?thesis
    by (auto simp: scheduleReview_def reviewItem_def calculateNextReview_def Let_def
        easeOrDefault_def defaultProgress_def split: if_splits)
next
  case (Some p)
  with assms(1) newEaseFactor_floor[of "easeOrDefault (reviewItem k st)" "clampQuality q"]
  show ?thesis
    by (auto simp: scheduleReview_def reviewItem_def calculateNextReview_def Let_def
        split: if_splits)
qed

lemma scheduleReview_ceiling:
  assumes "scheduleReview k now q st = Inr p'"
    and "case st of None \<Rightarrow> True | Some p \<Rightarrow> easeFactor p \<le> 3"
    and "q \<le> 4"
  shows "easeFactor p' \<le> 3"
proof (cases st)
  case None
  with assms(1) show ?thesis
    by (auto simp: scheduleReview_def reviewItem_def calculateNextReview_def Let_def
        easeOrDefault_def defaultProgress_def split: if_splits)
next
  case (Some p)
  with assms(2) have "easeOrDefault (reviewItem k st) \<le> 3"
    by (simp add: easeOrDefault_def reviewItem_def)
  from newEaseFactor_ceiling[OF this assms(3)] Some assms(1)
  show ?thesis
    by (auto simp: scheduleReview_def reviewItem_def calculateNextReview_def Let_def
        split: if_splits)
qed

lemma recordOutcome_floor:
  assumes "case st of None \<Rightarrow> True | Some p \<Rightarrow> 13 / 10 \<le> easeFactor p"
  shows "13 / 10 \<le> easeFactor (recordOutcome k now c st)"
proof -
  define p where "p = (case st of None \<Rightarrow> defaultProgress k now | Some p \<Rightarrow> p)"
  have e: "13 / 10 \<le> easeFactor p"
    using assms by (cases st) (simp_all add: p_def defaultProgress_def)
  show ?thesis
  proof (cases c)
    case True
    have "double13 \<le> easeFactor p + double01"
      using e by (simp add: double13_def double01_def)
    then have "double13 \<le> toDouble (easeFactor p + double01)" by (rule toDouble_ge_double13)
    with double13_ge have "13 / 10 \<le> min (toDouble (easeFactor p + double01)) 3" by simp
    with True show ?thesis
      by (simp add: recordOutcome_def applyOutcome_def Let_def flip: p_def)
  next
    case False
    have "13 / 10 \<le> max (toDouble (easeFactor p - double02)) double13"
      using double13_ge by simp
    with False show ?thesis
      by (simp add: recordOutcome_def applyOutcome_def Let_def flip: p_def)
  qed
qed

lemma recordOutcome_ceiling:
  assumes "case st of None \<Rightarrow> True | Some p \<Rightarrow> easeFactor p \<le> 3"
  shows "easeFactor (recordOutcome k now c st) \<le> 3"
proof -
  define p where "p = (case st of None \<Rightarrow> defaultProgress k now | Some p \<Rightarrow> p)"
  have e: "easeFactor p \<le> 3"
    using assms by (cases st) (simp_all add: p_def defaultProgress_def)
  show ?thesis
  proof (cases c)
    case True
    then show ?thesis by (simp add: recordOutcome_def applyOutcome_def Let_def)
  next
    case False
    have "easeFactor p - double02 \<le> 3" using e by (simp add: double02_def)
    then have "toDouble (easeFactor p - double02) \<le> 3" by (rule toDouble_le_3)
    then have "max (toDouble (easeFactor p - double02)) double13 \<le> 3"
      by (simp add: double13_def)
    with False show ?thesis
      by (simp add: recordOutcome_def applyOutcome_def Let_def flip: p_def)
  qed
qed

lemma applyUpdates_floor:
  assumes "applyUpdates k us st = Inr (Some p')"
    and "case st of None \<Rightarrow> True | Some p \<Rightarrow> 13 / 10 \<le> easeFactor p"
  shows "13 / 10 \<le> easeFactor p'"
  using assms
proof (induction k us st rule: applyUpdates.induct)
  case (1 k st)
  then show ?case by simp
next
  case (2 k now quality us st)
  from scheduleReview_total obtain p where p: "scheduleReview k now quality st = Inr p"
    by blast
  from scheduleReview_floor[OF p 2(3)] have "13 / 10 \<le> easeFactor p" .
  with 2 p show ?case by simp
next
  case (3 k now correct us st)
  from 3(3) have "13 / 10 \<le> easeFactor (recordOutcome k now correct st)"
    by (rule recordOutcome_floor)
  with 3 show ?case by simp
qed

lemma applyUpdates_ceiling:
  assumes "applyUpdates k us st = Inr (Some p')"
    and "case st of None \<Rightarrow> True | Some p \<Rightarrow> easeFactor p \<le> 3"
    and "list_all atMostFour us"
  shows "easeFactor p' \<le> 3"
  using assms
proof (induction k us st rule: applyUpdates.induct)
  case (1 k st)
  then show ?case by simp
next
  case (2 k now quality us st)
  from scheduleReview_total obtain p where p: "scheduleReview k now quality st = Inr p"
    by blast
  from 2(4) have q: "quality \<le> 4" by (simp add: atMostFour_def)
  from 2(4) have rest: "list_all atMostFour us" by simp
  from scheduleReview_ceiling[OF p 2(3) q] have "easeFactor p \<le> 3" .
  with 2 p rest show ?case by simp
next
  case (3 k now correct us st)
  from 3(3) have "easeFactor (recordOutcome k now correct st) \<le> 3"
    by (rule recordOutcome_ceiling)
  with 3 show ?case by (simp add: atMostFour_def)
qed

lemma applyUpdates_total: "\<exists>st'. applyUpdates k us st = Inr st'"
proof (induction k us st rule: applyUpdates.induct)
  case (2 k now quality us st)
  from scheduleReview_total obtain p where p: "scheduleReview k now quality st = Inr p"
    by blast
  with 2 show ?case by simp
qed simp_all

text \<open>
  Claim C1, as stated, fails: \<^verbatim>\<open>calculateNextReview\<close> bounds the ease factor from below
  only. Seven graded reviews of quality 5 on a new word leave the ease factor at 3.1: the
  first keeps the default 2.5, each of the next six adds 0.1. A single graded review of
  quality 5 takes an item from the ease factor 3.0 to 3.1.
\<close>

theorem graded_ease_exceeds_three:
  "map_sum id (map_option easeFactor) (applyUpdates 1 perfectReviews None) =
     Inr (Some (31 / 10)) \<and>
   map_sum id sc_easeFactor
     (calculateNextReview 0 (sixDayItem 0\<lparr>ri_easeFactor := Some 3\<rparr>) 5) = Inr (31 / 10) \<and>
   \<not> (31 / 10 \<le> (3::real))"
  by (simp add: perfectReviews_def scheduleReview_def reviewItem_def scheduler_defs
      defaultProgress_def sixDayItem_def)

text \<open>
  Claim C1, amended. Every sequence of updates, graded or binary, on a word with no review
  state yet (ease factor 2.5 by default) runs through, and the ease factor after it is at
  least 1.3; it is at most 3.0 when no graded update of the sequence has a quality above
  4 (a graded update raises the ease factor only for a quality above 4; binary updates are
  capped at 3.0).
\<close>

theorem ease_factor_bounds:
  "(\<exists>st. applyUpdates k us None = Inr st) \<and>
   (\<forall>p. applyUpdates k us None = Inr (Some p) \<longrightarrow>
        13 / 10 \<le> easeFactor p \<and> (list_all atMostFour us \<longrightarrow> easeFactor p \<le> 3))"
proof (intro conjI allI impI)
  show "\<exists>st. applyUpdates k us None = Inr st" by (rule applyUpdates_total)
next
  fix p assume "applyUpdates k us None = Inr (Some p)"
  then show "13 / 10 \<le> easeFactor p" by (rule applyUpdates_floor) simp
next
  fix p assume run: "applyUpdates k us None = Inr (Some p)" and low: "list_all atMostFour us"
  show "easeFactor p \<le> 3" by (rule applyUpdates_ceiling[OF run _ low]) simp
qed

text \<open>
  A correct answer, a graded review of quality 4 and an incorrect answer: the ease factor
  goes from 2.5 to \<^verbatim>\<open>2.6\<close>, stays there, and ends at \<^verbatim>\<open>2.4\<close>.
\<close>

theorem ease_factor_bounds_witness:
  "applyUpdates 1 mixedReviews None =
     Inr (Some \<lparr>wordId = 1, correctCount = 1, incorrectCount = 1,
                lastReviewed = 6 * msPerDay, nextReview = 6 * msPerDay + msPerHour,
                easeFactor = 5404319552844595 / 2251799813685248\<rparr>) \<and>
   list_all atMostFour mixedReviews \<and>
   13 / 10 \<le> (5404319552844595 / 2251799813685248 :: real) \<and>
   (5404319552844595 / 2251799813685248 :: real) \<le> 3"
proof -
  have sum: "toDouble (5 / 2 + double01) = 5854679515581645 / 2251799813685248"
    by (simp add: toDouble_eval[where n=1] double01_def tiesToEven_def Let_def)
  have same: "toDouble (5854679515581645 / 2251799813685248) =
              5854679515581645 / 2251799813685248"
    by (simp add: toDouble_eval[where n=1] tiesToEven_def Let_def)
  have difference: "toDouble (5854679515581645 / 2251799813685248 - double02) =
                    5404319552844595 / 2251799813685248"
    by (simp add: toDouble_eval[where n=1] double02_def tiesToEven_def Let_def)
  have run: "applyUpdates 1 mixedReviews None =
     Inr (Some \<lparr>wordId = 1, correctCount = 1, incorrectCount = 1,
                lastReviewed = 6 * msPerDay, nextReview = 6 * msPerDay + msPerHour,
                easeFactor = 5404319552844595 / 2251799813685248\<rparr>)"
    by (simp add: mixedReviews_def recordOutcome_def applyOutcome_def defaultProgress_def
        scheduleReview_def reviewItem_def scheduler_defs msPerHour_def sum same difference
        double13_def)
  have low: "list_all atMostFour mixedReviews" by (simp add: mixedReviews_def atMostFour_def)
  from ease_factor_bounds [of 1 mixedReviews] run low show ?thesis by simp
qed

section \<open>The daily history\<close>

lemma dates_insort_key:
  "distinct (map f (insort_key g x xs)) = (f x \<notin> f ` set xs \<and> distinct (map f xs))"
  by (induction xs) (auto simp: set_insort_key)

lemma dates_sort_key: "distinct (map f (sort_key g xs)) = distinct (map f xs)"
  by (induction xs) (simp_all add: dates_insort_key)

lemma recent_length: "length (recent h) \<le> 30"
  by (simp add: recent_def)

lemma recent_distinct: "distinct (map dp_date h) \<Longrightarrow> distinct (map dp_date (recent h))"
  by (simp add: recent_def dates_sort_key flip: take_map)

lemma recent_sorted: "sorted_wrt (\<lambda>a b. dp_date b \<le> dp_date a) (recent h)"
proof -
  have "sorted (map (\<lambda>entry. - dp_date entry) (sort_key (\<lambda>entry. - dp_date entry) h))"
    by (rule sorted_sort_key)
  then have "sorted_wrt (\<lambda>a b. dp_date b \<le> dp_date a)
               (sort_key (\<lambda>entry. - dp_date entry) h)"
    by (simp add: sorted_map)
  then show ?thesis unfolding recent_def by (rule sorted_wrt_take)
qed

lemma recent_subset: "set (recent h) \<subseteq> set h"
  using set_take_subset[of 30 "sort_key (\<lambda>entry. - dp_date entry) h"]
  by (simp add: recent_def)

lemma bump_date: "dp_date (bump c e) = dp_date e"
  by (simp add: bump_def Let_def)

lemma mutateFirst_dates: "map dp_date (mutateFirst P (bump c) h) = map dp_date h"
  by (induction h) (simp_all add: bump_date)

lemma mutateFirst_set: "set (mutateFirst P f h) \<subseteq> set h \<union> f ` set h"
  by (induction h) auto

lemma find_mutateFirst:
  "find P h = Some e \<Longrightarrow> P (f e) \<Longrightarrow> find P (mutateFirst P f h) = Some (f e)"
  by (induction h) (auto split: if_splits)

lemma find_pushed: "find P h = None \<Longrightarrow> P x \<Longrightarrow> find P (h @ [x]) = Some x"
  by (induction h) (auto split: if_splits)

lemma upsert_distinct:
  assumes "distinct (map dp_date h)"
  shows "distinct (map dp_date (upsert d c h))"
proof (cases "find (\<lambda>entry. dp_date entry = d) h")
  case None
  then have "d \<notin> dp_date ` set h" by (auto simp: find_None_iff)
  with assms None show ?thesis by (simp add: upsert_def)
next
  case (Some e)
  with assms show ?thesis by (simp add: upsert_def mutateFirst_dates)
qed

lemma bump_counted: "counted e \<Longrightarrow> counted (bump c e)"
  by (simp add: counted_def bump_def Let_def)

lemma upsert_counted:
  assumes "list_all counted h"
  shows "list_all counted (upsert d c h)"
proof (cases "find (\<lambda>entry. dp_date entry = d) h")
  case None
  with assms show ?thesis by (simp add: upsert_def counted_def)
next
  case (Some e)
  have "\<And>x. x \<in> set (mutateFirst (\<lambda>entry. dp_date entry = d) (bump c) h) \<Longrightarrow> counted x"
    using mutateFirst_set[of "\<lambda>entry. dp_date entry = d" "bump c" h] assms bump_counted
    by (auto simp: list_all_iff)
  with Some show ?thesis by (simp add: upsert_def list_all_iff)
qed

lemma recent_counted: "list_all counted h \<Longrightarrow> list_all counted (recent h)"
  using recent_subset[of h] by (auto simp: list_all_iff)


text \<open>It leaves the stored history as it was (a request failed) or writes the new one.\<close>

lemma updateDailyProgress_history:
  "storedHistory (snd (updateDailyProgress d c s)) = storedHistory s \<or>
   storedHistory (snd (updateDailyProgress d c s)) = recent (upsert d c (storedHistory s))"
  by (auto simp: updateDailyProgress_def tryCatch_def await_def getSetting_def
      updateSetting_def initDB_def request_def resolve_def storedHistory_def Let_def
      orEmpty_def split: list.splits option.splits)

lemma recordDays_tidy:
  "tidy (storedHistory s) \<Longrightarrow> tidy (storedHistory (recordDays events s))"
proof (induction events arbitrary: s)
  case Nil
  then show ?case by simp
next
  case (Cons ev events)
  obtain d c where ev: "ev = (d, c)" by (cases ev)
  have "tidy (recent (upsert d c (storedHistory s)))"
    using Cons.prems
    by (simp add: tidy_def recent_length recent_sorted recent_distinct upsert_distinct)
  with Cons.prems updateDailyProgress_history[of d c s]
  have "tidy (storedHistory (snd (updateDailyProgress d c s)))" by auto
  then show ?case using Cons.IH ev by simp
qed

lemma recordDays_counted:
  "list_all counted (storedHistory s) \<Longrightarrow>
   list_all counted (storedHistory (recordDays events s))"
proof (induction events arbitrary: s)
  case Nil
  then show ?case by simp
next
  case (Cons ev events)
  obtain d c where ev: "ev = (d, c)" by (cases ev)
  have "list_all counted (recent (upsert d c (storedHistory s)))"
    using Cons.prems by (simp add: recent_counted upsert_counted)
  with Cons.prems updateDailyProgress_history[of d c s]
  have "list_all counted (storedHistory (snd (updateDailyProgress d c s)))" by auto
  then show ?case using Cons.IH ev by simp
qed

lemma threeReviews_history:
  "storedHistory (recordDays threeReviews emptyDb) =
     [\<lparr>dp_date = 11, dp_reviewCount = 1, dp_correctCount = 0\<rparr>,
      \<lparr>dp_date = 10, dp_reviewCount = 2, dp_correctCount = 1\<rparr>]"
  by (simp add: threeReviews_def emptyDb_def storedHistory_def updateDailyProgress_def
      tryCatch_def await_def getSetting_def updateSetting_def initDB_def request_def
      resolve_def Let_def orEmpty_def upsert_def recent_def bump_def)

text \<open>
  Claim C8. Starting from a store with no history, after any sequence of reviews on any
  sequence of dates, whatever requests the store rejects on the way, the stored history
  has at most 30 entries, at most one entry for a date, and is sorted descending by date.
\<close>

theorem history_bounded_unique_sorted:
  assumes "settings s ''progressHistory'' = None"
  shows "length (storedHistory (recordDays events s)) \<le> 30 \<and>
         distinct (map dp_date (storedHistory (recordDays events s))) \<and>
         sorted_wrt (\<lambda>a b. dp_date b \<le> dp_date a) (storedHistory (recordDays events s))"
proof -
  have "tidy (storedHistory s)"
    using assms by (simp add: tidy_def storedHistory_def orEmpty_def)
  then have "tidy (storedHistory (recordDays events s))" by (rule recordDays_tidy)
  then show ?thesis by (simp add: tidy_def)
qed

theorem history_bounded_unique_sorted_witness:
  "settings emptyDb ''progressHistory'' = None \<and>
   storedHistory (recordDays threeReviews emptyDb) =
     [\<lparr>dp_date = 11, dp_reviewCount = 1, dp_correctCount = 0\<rparr>,
      \<lparr>dp_date = 10, dp_reviewCount = 2, dp_correctCount = 1\<rparr>] \<and>
   length (storedHistory (recordDays threeReviews emptyDb)) \<le> 30 \<and>
   distinct (map dp_date (storedHistory (recordDays threeReviews emptyDb))) \<and>
   sorted_wrt (\<lambda>a b. dp_date b \<le> dp_date a) (storedHistory (recordDays threeReviews emptyDb))"
proof -
  have none: "settings emptyDb ''progressHistory'' = None" by (simp add: emptyDb_def)
  from history_bounded_unique_sorted [OF none, of threeReviews] none threeReviews_history
  show ?thesis by blast
qed

text \<open>
  Claim C10. Starting from a store with no history, after any sequence of upserts every
  stored entry has \<open>correctCount \<le> reviewCount\<close> and \<open>reviewCount \<ge> 1\<close>; and an upsert for
  a date leaves, as the entry of that date, a fresh entry with \<open>reviewCount = 1\<close> and
  \<open>correctCount\<close> 1 or 0 (correct or not) when the date had none, and else the date's entry
  with \<open>reviewCount\<close> one more and \<open>correctCount\<close> one more exactly when the outcome was
  correct.
\<close>

theorem history_counts:
  assumes "settings s ''progressHistory'' = None"
  shows "(\<forall>e \<in> set (storedHistory (recordDays events s)).
            dp_correctCount e \<le> dp_reviewCount e \<and> 1 \<le> dp_reviewCount e) \<and>
         find (\<lambda>entry. dp_date entry = d) (upsert d c h) =
           Some (case find (\<lambda>entry. dp_date entry = d) h of
                   None \<Rightarrow> \<lparr>dp_date = d, dp_reviewCount = 1,
                              dp_correctCount = (if c then 1 else 0)\<rparr>
                 | Some e \<Rightarrow> e\<lparr>dp_reviewCount := dp_reviewCount e + 1,
                                 dp_correctCount := dp_correctCount e + (if c then 1 else 0)\<rparr>)"
proof
  have "list_all counted (storedHistory s)"
    using assms by (simp add: storedHistory_def orEmpty_def)
  then have "list_all counted (storedHistory (recordDays events s))"
    by (rule recordDays_counted)
  then show "\<forall>e \<in> set (storedHistory (recordDays events s)).
            dp_correctCount e \<le> dp_reviewCount e \<and> 1 \<le> dp_reviewCount e"
    by (simp add: list_all_iff counted_def)
next
  show "find (\<lambda>entry. dp_date entry = d) (upsert d c h) =
           Some (case find (\<lambda>entry. dp_date entry = d) h of
                   None \<Rightarrow> \<lparr>dp_date = d, dp_reviewCount = 1,
                              dp_correctCount = (if c then 1 else 0)\<rparr>
                 | Some e \<Rightarrow> e\<lparr>dp_reviewCount := dp_reviewCount e + 1,
                                 dp_correctCount := dp_correctCount e + (if c then 1 else 0)\<rparr>)"
  proof (cases "find (\<lambda>entry. dp_date entry = d) h")
    case None
    then show ?thesis by (simp add: upsert_def find_pushed)
  next
    case (Some e)
    then have "dp_date e = d" by (auto simp: find_Some_iff)
    then have "dp_date (bump c e) = d" by (simp add: bump_date)
    with Some have "find (\<lambda>entry. dp_date entry = d)
                      (mutateFirst (\<lambda>entry. dp_date entry = d) (bump c) h) = Some (bump c e)"
      by (intro find_mutateFirst)
    with Some show ?thesis by (simp add: upsert_def bump_def Let_def)
  qed
qed

theorem history_counts_witness:
  "settings emptyDb ''progressHistory'' = None \<and>
   storedHistory (recordDays threeReviews emptyDb) =
     [\<lparr>dp_date = 11, dp_reviewCount = 1, dp_correctCount = 0\<rparr>,
      \<lparr>dp_date = 10, dp_reviewCount = 2, dp_correctCount = 1\<rparr>] \<and>
   list_all (\<lambda>e. dp_correctCount e \<le> dp_reviewCount e \<and> 1 \<le> dp_reviewCount e)
     (storedHistory (recordDays threeReviews emptyDb)) \<and>
   find (\<lambda>entry. dp_date entry = 10)
     (upsert 10 True [\<lparr>dp_date = 10, dp_reviewCount = 2, dp_correctCount = 1\<rparr>]) =
     Some \<lparr>dp_date = 10, dp_reviewCount = 3, dp_correctCount = 2\<rparr>"
proof -
  have none: "settings emptyDb ''progressHistory'' = None" by (simp add: emptyDb_def)
  from history_counts [OF none, of threeReviews 10 True
      "[\<lparr>dp_date = 10, dp_reviewCount = 2, dp_correctCount = 1\<rparr>]"]
  show ?thesis using none by (simp add: threeReviews_history)
qed

section \<open>Statistics and the streak\<close>

lemma getSetting_ok: "faults s = [] \<Longrightarrow> getSetting k s = (Inr (settings s k), s)"
  by (simp add: getSetting_def await_def initDB_def request_ok)

lemma updateSetting_ok:
  "faults s = [] \<Longrightarrow>
   updateSetting k v s = (Inr (), s\<lparr>settings := (settings s)(k \<mapsto> v)\<rparr>)"
  by (simp add: updateSetting_def await_def initDB_def request_ok)

lemma getLearningStats_ok: "faults s = [] \<Longrightarrow> getLearningStats s = (Inr (storedStats s), s)"
  by (simp add: getLearningStats_def tryCatch_def await_def getSetting_ok resolve_def
      storedStats_def storedStreak_def storedLastReviewDate_def)

lemma updateDailyProgress_ok:
  "faults s = [] \<Longrightarrow>
   updateDailyProgress d c s =
     (Inr (), s\<lparr>settings := (settings s)(''progressHistory'' \<mapsto>
                    History (recent (upsert d c (orEmpty (settings s ''progressHistory'')))))\<rparr>)"
  by (simp add: updateDailyProgress_def tryCatch_def await_def getSetting_ok updateSetting_ok
      resolve_def Let_def)

text \<open>The streak rule of the code, on the day string it takes for yesterday.\<close>

lemma nextStreak_cases:
  "nextStreak localTZA stats now =
     (case lastReviewDate stats of
        None \<Rightarrow> 1
      | Some prior \<Rightarrow>
          if isoDay prior = isoDay now then streak stats
          else if isoDay prior = isoDay (dayBefore localTZA now) then streak stats + 1
          else 1)"
  by (simp add: nextStreak_def isNewDay_def Let_def split: option.splits)

lemma updateLearningStats_run:
  assumes "faults s = []"
  shows "updateLearningStats localTZA correct now s =
     (Inr (foldOutcome localTZA correct now (storedStats s)),
      s\<lparr>settings := (settings s)
           (''learnedWordsCount'' \<mapsto>
               Num (learnedWords (foldOutcome localTZA correct now (storedStats s))),
            ''reviewsToday'' \<mapsto>
               Num (reviewsToday (foldOutcome localTZA correct now (storedStats s))),
            ''reviewsTotal'' \<mapsto> Num (reviewsTotal (storedStats s) + 1),
            ''correctAnswers'' \<mapsto>
               Num (correctAnswers (foldOutcome localTZA correct now (storedStats s))),
            ''incorrectAnswers'' \<mapsto>
               Num (incorrectAnswers (foldOutcome localTZA correct now (storedStats s))),
            ''streak'' \<mapsto> Num (streak (foldOutcome localTZA correct now (storedStats s))),
            ''lastReviewDate'' \<mapsto> IsoTime now,
            ''progressHistory'' \<mapsto>
               History (recent (upsert (isoDay now) correct
                                  (orEmpty (settings s ''progressHistory'')))))\<rparr>)"
  using assms
  by (simp add: updateLearningStats_def tryCatch_def await_def getLearningStats_ok
      updateSetting_ok updateDailyProgress_ok resolve_def Let_def)

lemma updateLearningStats_streak:
  assumes "faults s = []"
  shows "\<exists>stats' s'. updateLearningStats localTZA correct now s = (Inr stats', s') \<and>
           faults s' = [] \<and> storedStreak s' = streak stats' \<and>
           storedLastReviewDate s' = Some now \<and>
           streak stats' =
             (case storedLastReviewDate s of
                None \<Rightarrow> 1
              | Some prior \<Rightarrow>
                  if isoDay prior = isoDay now then storedStreak s
                  else if isoDay prior = isoDay (dayBefore localTZA now)
                  then storedStreak s + 1
                  else 1)"
proof -
  define stats' where "stats' = foldOutcome localTZA correct now (storedStats s)"
  define s' where "s' = snd (updateLearningStats localTZA correct now s)"
  have run: "updateLearningStats localTZA correct now s = (Inr stats', s')"
    unfolding s'_def stats'_def by (simp add: updateLearningStats_run[OF assms])
  have s': "faults s' = []" "settings s' ''streak'' = Some (Num (streak stats'))"
    "settings s' ''lastReviewDate'' = Some (IsoTime now)"
    unfolding s'_def stats'_def using assms
    by (simp_all add: updateLearningStats_run[OF assms])
  have "streak stats' = nextStreak localTZA (storedStats s) now"
    by (simp add: stats'_def foldOutcome_def Let_def)
  moreover have "streak (storedStats s) = storedStreak s"
    "lastReviewDate (storedStats s) = storedLastReviewDate s"
    by (simp_all add: storedStats_def)
  ultimately have rule: "streak stats' =
             (case storedLastReviewDate s of
                None \<Rightarrow> 1
              | Some prior \<Rightarrow>
                  if isoDay prior = isoDay now then storedStreak s
                  else if isoDay prior = isoDay (dayBefore localTZA now)
                  then storedStreak s + 1
                  else 1)"
    by (simp add: nextStreak_cases split: option.splits)
  have "storedStreak s' = streak stats'"
    by (simp add: storedStreak_def s'(2) orZero_def)
  moreover have "storedLastReviewDate s' = Some now"
    by (simp add: storedLastReviewDate_def s'(3) toDate_def)
  ultimately show ?thesis using run s'(1) rule by blast
qed

text \<open>
  In a zone whose offset never changes, the day the code takes for yesterday is the UTC
  day before today's, and the streak follows the calendar: 1 with no review before,
  unchanged within a day, one more after a review on the day before, 1 after a gap; the
  first review ever on a day \<open>D\<close>, then reviews on \<open>D + 1\<close> and on \<open>D + 3\<close> return 1, 2, 1.
\<close>

lemma dayBefore_fixedOffset: "isoDay (dayBefore (fixedOffset offset) now) = isoDay now - 1"
  by (simp add: isoDay_def dayBefore_def fixedOffset_def msPerDay_def)

lemma streak_without_clock_change:
  assumes "faults s = []" and "storedLastReviewDate s = None"
    and "isoDay t2 = isoDay t1 + 1" and "isoDay t3 = isoDay t1 + 3"
  shows "streaks (fixedOffset offset) [(c1, t1), (c2, t2), (c3, t3)] s =
           [Inr 1, Inr 2, Inr 1]"
proof -
  from updateLearningStats_streak[OF assms(1), of "fixedOffset offset" c1 t1] assms(2)
  obtain r1 s1 where 1: "updateLearningStats (fixedOffset offset) c1 t1 s = (Inr r1, s1)"
    "faults s1 = []" "storedStreak s1 = streak r1" "storedLastReviewDate s1 = Some t1"
    "streak r1 = 1"
    by auto
  from updateLearningStats_streak[OF 1(2), of "fixedOffset offset" c2 t2] assms(3) 1
  obtain r2 s2 where 2: "updateLearningStats (fixedOffset offset) c2 t2 s1 = (Inr r2, s2)"
    "faults s2 = []" "storedStreak s2 = streak r2" "storedLastReviewDate s2 = Some t2"
    "streak r2 = 2"
    by (auto simp: dayBefore_fixedOffset)
  from updateLearningStats_streak[OF 2(2), of "fixedOffset offset" c3 t3] assms(3,4) 2
  obtain r3 s3 where 3: "updateLearningStats (fixedOffset offset) c3 t3 s2 = (Inr r3, s3)"
    "streak r3 = 1"
    by (auto simp: dayBefore_fixedOffset)
  from 1 2 3 show ?thesis by simp
qed

text \<open>
  Claim C4 holds of the intended rule, not of the code, where the offset of the zone
  changes. In New York a first review ever at 20:30 on 2 November 2024 and a second at
  19:30 on 3 November, the evening after the clocks went back, fall on consecutive
  calendar days, in local time and in UTC (00:30 on 3 and on 4 November). The code steps
  from the second review one local day back, to 19:30 on 2 November local time, which is
  23:30 UTC on 2 November; the last review's UTC day, 3 November, is not that day, and the
  streak is reset to 1 where the claim has 2. With the offset of standard time throughout,
  the same two reviews return 1 and 2.
\<close>

theorem streak_reset_at_clock_change:
  "isoDay eveningTwo = isoDay eveningOne + 1 \<and>
   isoDay (dayBefore newYork eveningTwo) = isoDay eveningOne - 1 \<and>
   streaks newYork [(True, eveningOne), (True, eveningTwo)] emptyDb = [Inr 1, Inr 1] \<and>
   streaks (fixedOffset (- 5 * msPerHour)) [(True, eveningOne), (True, eveningTwo)] emptyDb =
     [Inr 1, Inr 2]"
proof -
  have f: "faults emptyDb = []" and none: "storedLastReviewDate emptyDb = None"
    by (simp_all add: emptyDb_def storedLastReviewDate_def toDate_def)
  have days: "isoDay eveningTwo = isoDay eveningOne + 1"
    "isoDay (dayBefore newYork eveningTwo) = isoDay eveningOne - 1"
    by (simp_all add: isoDay_def dayBefore_def newYork_def eveningOne_def eveningTwo_def
        msPerDay_def msPerHour_def Let_def)
  from updateLearningStats_streak[OF f, of newYork True eveningOne] none
  obtain r1 s1 where 1: "updateLearningStats newYork True eveningOne emptyDb = (Inr r1, s1)"
    "faults s1 = []" "storedStreak s1 = streak r1"
    "storedLastReviewDate s1 = Some eveningOne" "streak r1 = 1"
    by auto
  from updateLearningStats_streak[OF 1(2), of newYork True eveningTwo] days 1
  obtain r2 s2 where 2: "updateLearningStats newYork True eveningTwo s1 = (Inr r2, s2)"
    "streak r2 = 1"
    by auto
  from 1 2 have reset: "streaks newYork [(True, eveningOne), (True, eveningTwo)] emptyDb =
                          [Inr 1, Inr 1]"
    by simp
  let ?est = "fixedOffset (- 5 * msPerHour)"
  from updateLearningStats_streak[OF f, of ?est True eveningOne] none
  obtain q1 u1 where 3: "updateLearningStats ?est True eveningOne emptyDb = (Inr q1, u1)"
    "faults u1 = []" "storedStreak u1 = streak q1"
    "storedLastReviewDate u1 = Some eveningOne" "streak q1 = 1"
    by auto
  from updateLearningStats_streak[OF 3(2), of ?est True eveningTwo] days 3
  obtain q2 u2 where 4: "updateLearningStats ?est True eveningTwo u1 = (Inr q2, u2)"
    "streak q2 = 2"
    by (auto simp: dayBefore_fixedOffset)
  from 3 4 have "streaks ?est [(True, eveningOne), (True, eveningTwo)] emptyDb =
                   [Inr 1, Inr 2]"
    by simp
  with days reset show ?thesis by simp
qed

section \<open>The review queue\<close>

lemma request_keeps:
  "request s = (r, s') \<Longrightarrow> progress s' = progress s \<and> vocabulary s' = vocabulary s"
  by (auto simp: request_def split: list.splits option.splits)

lemma getVocabulary_result:
  assumes "getVocabulary k s = (Inr found, s')"
  shows "(\<forall>v. found = Some v \<longrightarrow> vi_id v = Some k) \<and>
         progress s' = progress s \<and> vocabulary s' = vocabulary s"
  using assms
  by (auto simp: getVocabulary_def await_def request_def find_Some_iff
      split: list.splits option.splits)

lemma promiseAll_getVocabulary:
  assumes "promiseAll (map (\<lambda>item. getVocabulary (wordId item)) items) s = (Inr found, s')"
    and "v \<in> set (filterBoolean found)"
  shows "\<exists>item \<in> set items. vi_id v = Some (wordId item)"
  using assms
proof (induction items arbitrary: s found)
  case Nil
  then show ?case by (simp add: resolve_def filterBoolean_def)
next
  case (Cons item items)
  from Cons.prems(1) obtain a s1 as where
    a: "getVocabulary (wordId item) s = (Inr a, s1)" and
    as: "promiseAll (map (\<lambda>item. getVocabulary (wordId item)) items) s1 = (Inr as, s')" and
    found: "found = a # as"
    by (auto split: prod.splits sum.splits)
  from Cons.prems(2) found
  consider "a = Some v" | "v \<in> set (filterBoolean as)"
    by (cases a) (auto simp: filterBoolean_def)
  then show ?case
  proof cases
    case 1
    with getVocabulary_result[OF a] show ?thesis by simp
  next
    case 2
    with Cons.IH[OF as] show ?thesis by auto
  qed
qed

lemma getAllFromIndex_due:
  assumes "getAllFromIndex now limit s = (Inr due, s')"
  shows "set due \<subseteq> {p \<in> set (progress s). nextReview p \<le> now}"
proof -
  let ?inRange = "sort_key (\<lambda>p. (nextReview p, wordId p))
                        (filter (\<lambda>p. nextReview p \<le> now) (progress s))"
  from assms have "due = (if limit = 0 then ?inRange else take limit ?inRange)"
    by (auto simp: getAllFromIndex_def await_def request_def Let_def
        split: list.splits option.splits)
  then have "set due \<subseteq> set ?inRange"
    using set_take_subset[of limit ?inRange] by (simp split: if_splits)
  then show ?thesis by auto
qed

lemma getVocabularyForReview_due:
  assumes "getVocabularyForReview now limit s = (Inr vs, s')" and "v \<in> set vs"
  shows "\<exists>p \<in> set (progress s). vi_id v = Some (wordId p) \<and> nextReview p \<le> now"
proof -
  from assms(1) obtain s1 due s2 found where
    i: "initDB s = (Inr (), s1)" and
    d: "getAllFromIndex now limit s1 = (Inr due, s2)" and
    f: "promiseAll (map (\<lambda>item. getVocabulary (wordId item)) due) s2 = (Inr found, s')" and
    vs: "vs = filterBoolean found"
    by (auto simp: getVocabularyForReview_def await_def resolve_def
        split: prod.splits sum.splits)
  from i have "progress s1 = progress s" by (simp add: initDB_def request_keeps)
  with getAllFromIndex_due[OF d]
  have "set due \<subseteq> {p \<in> set (progress s). nextReview p \<le> now}" by simp
  moreover from promiseAll_getVocabulary[OF f] assms(2) vs
  obtain item where "item \<in> set due" "vi_id v = Some (wordId item)" by auto
  ultimately show ?thesis by auto
qed

lemma getVocabularyForReview_none_due:
  assumes "faults s = []" and "filter (\<lambda>p. nextReview p \<le> now) (progress s) = []"
  shows "getVocabularyForReview now limit s = (Inr [], s)"
  using assms
  by (simp add: getVocabularyForReview_def await_def initDB_def request_ok
      getAllFromIndex_def resolve_def filterBoolean_def Let_def)

text \<open>
  Claim C7. In a store that keeps one progress record for a word, whatever \<open>now\<close> and
  \<open>limit\<close>: a vocabulary item that \<^verbatim>\<open>getVocabularyForReview\<close> returns has no progress record
  whose \<^verbatim>\<open>nextReview\<close> is later than \<open>now\<close>; and when the store answers and no record is
  due, the result is the empty list, not an error.
\<close>

theorem due_items_only:
  assumes "distinct (map wordId (progress s))"
  shows "(\<forall>vs s' v p. getVocabularyForReview now limit s = (Inr vs, s') \<and> v \<in> set vs \<and>
            p \<in> set (progress s) \<and> vi_id v = Some (wordId p) \<longrightarrow> \<not> now < nextReview p) \<and>
         (faults s = [] \<and> (\<forall>p \<in> set (progress s). now < nextReview p) \<longrightarrow>
            getVocabularyForReview now limit s = (Inr [], s))"
proof (intro conjI allI impI)
  fix vs s' v p
  assume a: "getVocabularyForReview now limit s = (Inr vs, s') \<and> v \<in> set vs \<and>
             p \<in> set (progress s) \<and> vi_id v = Some (wordId p)"
  then obtain q where q: "q \<in> set (progress s)" "vi_id v = Some (wordId q)"
      "nextReview q \<le> now"
    using getVocabularyForReview_due by blast
  with a assms have "p = q" by (auto simp: distinct_map inj_on_def)
  with q show "\<not> now < nextReview p" by simp
next
  assume "faults s = [] \<and> (\<forall>p \<in> set (progress s). now < nextReview p)"
  then have "faults s = []" "filter (\<lambda>p. nextReview p \<le> now) (progress s) = []"
    by (auto simp: filter_empty_conv)
  then show "getVocabularyForReview now limit s = (Inr [], s)"
    by (rule getVocabularyForReview_none_due)
qed

theorem due_items_only_witness:
  "distinct (map wordId (progress twoWordDb)) \<and>
   getVocabularyForReview (7 * msPerDay) 10 twoWordDb = (Inr [kitab], twoWordDb) \<and>
   kitabProgress \<in> set (progress twoWordDb) \<and> vi_id kitab = Some (wordId kitabProgress) \<and>
   \<not> 7 * msPerDay < nextReview kitabProgress \<and>
   faults twoWordDb = [] \<and> list_all (\<lambda>p. 0 < nextReview p) (progress twoWordDb) \<and>
   getVocabularyForReview 0 10 twoWordDb = (Inr [], twoWordDb)"
proof -
  have d: "distinct (map wordId (progress twoWordDb))"
    by (simp add: twoWordDb_def kitabProgress_def qalamProgress_def)
  have run: "getVocabularyForReview (7 * msPerDay) 10 twoWordDb = (Inr [kitab], twoWordDb)"
    by (simp add: getVocabularyForReview_def await_def initDB_def request_def
        getAllFromIndex_def getVocabulary_def resolve_def filterBoolean_def Let_def
        twoWordDb_def kitabProgress_def qalamProgress_def kitab_def qalam_def msPerDay_def)
  have rec: "kitabProgress \<in> set (progress twoWordDb) \<and>
             vi_id kitab = Some (wordId kitabProgress)"
    by (simp add: twoWordDb_def kitabProgress_def kitab_def)
  have none: "faults twoWordDb = [] \<and> list_all (\<lambda>p. 0 < nextReview p) (progress twoWordDb)"
    by (simp add: twoWordDb_def kitabProgress_def qalamProgress_def msPerDay_def)
  from due_items_only [OF d, of "7 * msPerDay" 10] run rec
  have "\<not> 7 * msPerDay < nextReview kitabProgress" by auto
  moreover from due_items_only [OF d, of 0 10] none
  have "getVocabularyForReview 0 10 twoWordDb = (Inr [], twoWordDb)"
    by (simp add: list_all_iff)
  ultimately show ?thesis using d run rec none by blast
qed

section \<open>Failures of the store\<close>




















end
